theory Spec2Isabelle
  imports Main
begin

section \<open>Python strings\<close>

text \<open>
  The program handles text only through a few methods of Python's \<open>str\<close>. They are
  written out here on \<open>string\<close>, whose characters are the code points 0 to 255; the
  code points beyond that range are outside the model.
\<close>

definition isspace :: "char \<Rightarrow> bool" where
  \<comment> \<open>The characters \<open>str.strip()\<close> and \<open>str.split()\<close> treat as whitespace.\<close>
  "isspace c \<longleftrightarrow> c \<in> set [CHR 0x09, CHR 0x0A, CHR 0x0B, CHR 0x0C, CHR 0x0D,
     CHR 0x1C, CHR 0x1D, CHR 0x1E, CHR 0x1F, CHR 0x20, CHR 0x85, CHR 0xA0]"

definition islinebreak :: "char \<Rightarrow> bool" where
  \<comment> \<open>The line boundaries of \<open>str.splitlines()\<close>.\<close>
  "islinebreak c \<longleftrightarrow> c \<in> set [CHR 0x0A, CHR 0x0B, CHR 0x0C, CHR 0x0D,
     CHR 0x1C, CHR 0x1D, CHR 0x1E, CHR 0x85]"

definition strip :: "string \<Rightarrow> string" where
  "strip s = rev (dropWhile isspace (rev (dropWhile isspace s)))"

fun split_from :: "string \<Rightarrow> string \<Rightarrow> string list" where
  \<comment> \<open>\<open>split_from w s\<close>: the fields of \<open>s\<close>, where \<open>w\<close> is the field being read.\<close>
  "split_from w [] = (if w = [] then [] else [w])"
| "split_from w (c # cs) =
     (if isspace c then (if w = [] then split_from [] cs else w # split_from [] cs)
      else split_from (w @ [c]) cs)"

definition split :: "string \<Rightarrow> string list" where
  \<comment> \<open>\<open>s.split()\<close>: the maximal runs of characters that are not whitespace.\<close>
  "split s = split_from [] s"

definition split_maxsplit1 :: "string \<Rightarrow> string list" where
  \<comment> \<open>\<open>s.split(maxsplit=1)\<close>: the first field, then the rest of the string from its
      first character that is not whitespace, if there is one.\<close>
  "split_maxsplit1 s =
     (let s1 = dropWhile isspace s in
      if s1 = [] then []
      else let rest = dropWhile isspace (dropWhile (\<lambda>c. \<not> isspace c) s1) in
        takeWhile (\<lambda>c. \<not> isspace c) s1 # (if rest = [] then [] else [rest]))"

definition split_sep1 :: "char \<Rightarrow> string \<Rightarrow> string list" where
  \<comment> \<open>\<open>s.split(sep, 1)\<close> for a separator of one character.\<close>
  "split_sep1 sep s =
     (if sep \<in> set s
      then [takeWhile (\<lambda>c. c \<noteq> sep) s, tl (dropWhile (\<lambda>c. c \<noteq> sep) s)]
      else [s])"

fun splitlines_from :: "string \<Rightarrow> string \<Rightarrow> string list" where
  \<comment> \<open>\<open>splitlines_from l s\<close>: the lines of \<open>s\<close>, where \<open>l\<close> is the line being read.
      A carriage return followed by a line feed is one boundary.\<close>
  "splitlines_from l [] = (if l = [] then [] else [l])"
| "splitlines_from l (c # cs) =
     (if islinebreak c
      then l # (if c = CHR 0x0D
                then (case cs of
                        [] \<Rightarrow> []
                      | d # ds \<Rightarrow> if d = CHR 0x0A then splitlines_from [] ds
                                  else splitlines_from [] (d # ds))
                else splitlines_from [] cs)
      else splitlines_from (l @ [c]) cs)"

definition splitlines :: "string \<Rightarrow> string list" where
  "splitlines s = splitlines_from [] s"

definition startswith :: "string \<Rightarrow> string \<Rightarrow> bool" where
  \<comment> \<open>\<open>startswith s p\<close> is \<open>s.startswith(p)\<close>.\<close>
  "startswith s p \<longleftrightarrow> take (length p) s = p"

fun contains :: "string \<Rightarrow> string \<Rightarrow> bool" where
  \<comment> \<open>\<open>contains s p\<close> is \<open>p in s\<close>.\<close>
  "contains [] p = (p = [])"
| "contains (c # cs) p = (startswith (c # cs) p \<or> contains cs p)"

fun join :: "string \<Rightarrow> string list \<Rightarrow> string" where
  \<comment> \<open>\<open>join sep parts\<close> is \<open>sep.join(parts)\<close>.\<close>
  "join sep [] = []"
| "join sep [p] = p"
| "join sep (p # q # ps) = p @ sep @ join sep (q # ps)"

section \<open>Task records\<close>

text \<open>
  A task is a Python dictionary. The program builds it in two places only, with the key
  \<open>task_name\<close> bound to a string in both; each of the other six keys is bound on one
  platform and missing on the other, and on Windows the value may be \<open>None\<close>.
  A dictionary with \<open>task_name\<close> is never empty, so it is true where the program tests it.
\<close>

datatype field = Absent | Null | Str string

record task =
  task_name :: string
  trigger_time :: field
  command :: field
  last_run_time :: field
  task_path :: field
  state :: field
  actions :: field

fun dict_get :: "field \<Rightarrow> string option" where
  \<comment> \<open>\<open>task.get(key)\<close>: \<open>None\<close> for a missing key.\<close>
  "dict_get Absent = None"
| "dict_get Null = None"
| "dict_get (Str s) = Some s"

fun dict_get_na :: "field \<Rightarrow> string option" where
  \<comment> \<open>\<open>task.get(key, 'N/A')\<close>.\<close>
  "dict_get_na Absent = Some ''N/A''"
| "dict_get_na Null = None"
| "dict_get_na (Str s) = Some s"

fun format_value :: "string option \<Rightarrow> string" where
  \<comment> \<open>What an f-string writes for a value that is a string or \<open>None\<close>.\<close>
  "format_value None = ''None''"
| "format_value (Some s) = s"

section \<open>Comparing two snapshots\<close>

text \<open>
  The body of the polling loop after a successful collection (lines 136 to 158).
  \<open>added_tasks\<close> and \<open>removed_tasks\<close> are Python sets, and the order in which a
  \<open>for\<close> loop visits a set is not fixed by the program text; the log lines written
  for them are therefore collected in sets. The third loop visits the list
  \<open>current_tasks\<close> in order.
\<close>

definition task_names :: "task list \<Rightarrow> string set" where
  \<comment> \<open>\<open>{task['task_name'] for task in tasks}\<close>\<close>
  "task_names tasks = set (map task_name tasks)"

definition added_tasks :: "task list \<Rightarrow> task list \<Rightarrow> string set" where
  "added_tasks previous_tasks current_tasks =
     task_names current_tasks - task_names previous_tasks"

definition removed_tasks :: "task list \<Rightarrow> task list \<Rightarrow> string set" where
  "removed_tasks previous_tasks current_tasks =
     task_names previous_tasks - task_names current_tasks"

definition next_task :: "string \<Rightarrow> task list \<Rightarrow> task option" where
  \<comment> \<open>\<open>next((task for task in tasks if task['task_name'] == name), None)\<close>. Line 143
      calls \<open>next\<close> without the default and raises \<open>StopIteration\<close> where this
      function is \<open>None\<close>.\<close>
  "next_task name tasks = find (\<lambda>task. task_name task = name) tasks"

definition key_differs :: "task \<Rightarrow> task \<Rightarrow> bool" where
  \<comment> \<open>The test of line 155.\<close>
  "key_differs current_task previous_task \<longleftrightarrow>
     dict_get (trigger_time current_task) \<noteq> dict_get (trigger_time previous_task)
     \<or> dict_get (command current_task) \<noteq> dict_get (command previous_task)"

fun updated_tasks :: "task list \<Rightarrow> task list \<Rightarrow> (task \<times> task) list" where
  \<comment> \<open>The pairs \<open>(current_task, previous_task)\<close> for which line 158 logs, in order.\<close>
  "updated_tasks previous_tasks [] = []"
| "updated_tasks previous_tasks (current_task # rest) =
     (case next_task (task_name current_task) previous_tasks of
        None \<Rightarrow> updated_tasks previous_tasks rest
      | Some previous_task \<Rightarrow>
          if key_differs current_task previous_task
          then (current_task, previous_task) # updated_tasks previous_tasks rest
          else updated_tasks previous_tasks rest)"

record change_set =
  added :: "(string \<times> task option) set"
  removed :: "string set"
  updated :: "(task \<times> task) list"

definition compare_tasks :: "task list \<Rightarrow> task list \<Rightarrow> change_set" where
  \<comment> \<open>An entry \<open>(name, None)\<close> of \<open>added\<close> stands for the \<open>StopIteration\<close> of line 143.\<close>
  "compare_tasks previous_tasks current_tasks =
     \<lparr> added = (\<lambda>name. (name, next_task name current_tasks))
                 ` added_tasks previous_tasks current_tasks,
       removed = removed_tasks previous_tasks current_tasks,
       updated = updated_tasks previous_tasks current_tasks \<rparr>"

datatype level = INFO | WARNING | ERROR

definition added_message :: "task \<Rightarrow> level \<times> string" where
  "added_message task =
     (INFO, ''New scheduled task added: Name: '' @ task_name task
        @ '', Trigger Time: '' @ format_value (dict_get_na (trigger_time task))
        @ '', Command: '' @ format_value (dict_get_na (command task))
        @ '', LastRunTime: '' @ format_value (dict_get_na (last_run_time task))
        @ '', TaskPath: '' @ format_value (dict_get_na (task_path task))
        @ '', State: '' @ format_value (dict_get_na (state task))
        @ '', Actions: '' @ format_value (dict_get_na (actions task)))"

definition removed_message :: "string \<Rightarrow> level \<times> string" where
  "removed_message name = (WARNING, ''Scheduled task removed: Name: '' @ name)"

definition updated_message :: "task \<times> task \<Rightarrow> level \<times> string" where
  "updated_message entry =
     (case entry of (current_task, previous_task) \<Rightarrow>
      (INFO, ''Scheduled task updated: Name: '' @ task_name current_task
        @ '', New Trigger Time: '' @ format_value (dict_get_na (trigger_time current_task))
        @ '', New Command: '' @ format_value (dict_get_na (command current_task))
        @ '', Old Trigger Time: '' @ format_value (dict_get_na (trigger_time previous_task))
        @ '', Old Command: '' @ format_value (dict_get_na (command previous_task))
        @ '', LastRunTime: '' @ format_value (dict_get_na (last_run_time current_task))
        @ '', TaskPath: '' @ format_value (dict_get_na (task_path current_task))
        @ '', State: '' @ format_value (dict_get_na (state current_task))
        @ '', Actions: '' @ format_value (dict_get_na (actions current_task))))"

text \<open>
  The log of one comparison as a sequence. The two \<open>for\<close> loops of lines 142 and 148
  visit a Python set; the order of such a visit is a property of the interpreter's hash
  table and of the hash seed of the process, so it is a parameter here: any list that
  holds each element of the set once. The loop of line 152 follows \<open>current_tasks\<close>.
\<close>

definition iterates :: "string list \<Rightarrow> string set \<Rightarrow> bool" where
  \<comment> \<open>\<open>iterates order names\<close>: a \<open>for\<close> loop over the set \<open>names\<close> may visit it in
      the order \<open>order\<close>.\<close>
  "iterates order names \<longleftrightarrow> distinct order \<and> set order = names"

datatype log_line =
    LogAdded string "task option"
  | LogRemoved string
  | LogUpdated task task

definition added_log :: "string list \<Rightarrow> task list \<Rightarrow> log_line list" where
  \<comment> \<open>Lines 142 to 146, visiting \<open>added_tasks\<close> in the given order.\<close>
  "added_log order current_tasks =
     map (\<lambda>name. LogAdded name (next_task name current_tasks)) order"

definition removed_log :: "string list \<Rightarrow> log_line list" where
  \<comment> \<open>Lines 148 to 150, visiting \<open>removed_tasks\<close> in the given order.\<close>
  "removed_log order = map LogRemoved order"

definition updated_log :: "task list \<Rightarrow> task list \<Rightarrow> log_line list" where
  \<comment> \<open>Lines 152 to 158.\<close>
  "updated_log previous_tasks current_tasks =
     map (\<lambda>(current_task, previous_task). LogUpdated current_task previous_task)
       (updated_tasks previous_tasks current_tasks)"

definition comparison_log ::
  "string list \<Rightarrow> string list \<Rightarrow> task list \<Rightarrow> task list \<Rightarrow> log_line list"
where
  "comparison_log added_order removed_order previous_tasks current_tasks =
     added_log added_order current_tasks @ removed_log removed_order
       @ updated_log previous_tasks current_tasks"

section \<open>Collecting the tasks\<close>

text \<open>
  \<open>get_scheduled_tasks\<close> reads the host through \<open>platform.system()\<close> and through
  the shell commands it runs. The host is a parameter: the name of the system, and
  what running a command gives at the time of the collection, either an exception or
  the text of the two output streams.
\<close>

datatype exn = FileNotFoundError | IndexError | OtherError

datatype proc_result = Raised exn | Completed string string

type_synonym host = "string \<Rightarrow> proc_result"

text \<open>
  Every path that returns \<open>None\<close> logs one error first; the constructor of
  \<open>collect_error\<close> says which (lines 41, 90, 107, 111 and 114).
\<close>

datatype collect_error =
    RetrieveError string
  | CronError string
  | Unsupported string
  | CrontabNotFound
  | Unexpected exn

fun handler :: "exn \<Rightarrow> collect_error" where
  \<comment> \<open>The two \<open>except\<close> clauses of lines 110 to 115.\<close>
  "handler FileNotFoundError = CrontabNotFound"
| "handler e = Unexpected e"

definition windows_command :: string where
  "windows_command =
     ''powershell Get-ScheduledTask | Select-Object TaskName, LastRunTime, TaskPath, State, Actions''"

definition command_taskpath :: "string \<Rightarrow> string" where
  "command_taskpath name =
     ''powershell Get-ScheduledTask -TaskName '' @ [CHR 0x22] @ name @ [CHR 0x22]
       @ '' | Select-Object TaskName, LastRunTime, TaskPath, State, Actions''"

definition value_after_colon :: "string \<Rightarrow> exn + field" where
  \<comment> \<open>\<open>taskline.split(":", 1)[1].strip()\<close>\<close>
  "value_after_colon taskline =
     (let parts = split_sep1 CHR '':'' taskline in
      if 1 < length parts then Inr (Str (strip (parts ! 1))) else Inl IndexError)"

definition assign_if_in :: "string \<Rightarrow> string \<Rightarrow> field \<Rightarrow> exn + field" where
  \<comment> \<open>One of the four \<open>if\<close> statements of lines 67 to 74: the new value of the variable.\<close>
  "assign_if_in label taskline old =
     (if contains taskline label then value_after_colon taskline else Inr old)"

fun read_details ::
  "string list \<Rightarrow> field \<times> field \<times> field \<times> field \<Rightarrow> exn + (field \<times> field \<times> field \<times> field)"
where
  \<comment> \<open>The loop of lines 66 to 74 over \<open>last_run_time\<close>, \<open>task_path\<close>, \<open>state\<close>
      and \<open>actions\<close>.\<close>
  "read_details [] vars = Inr vars"
| "read_details (taskline # rest) (lrt, tp, st, ac) =
     (case assign_if_in ''LastRunTime'' taskline lrt of
        Inl e \<Rightarrow> Inl e
      | Inr lrt' \<Rightarrow>
     (case assign_if_in ''TaskPath'' taskline tp of
        Inl e \<Rightarrow> Inl e
      | Inr tp' \<Rightarrow>
     (case assign_if_in ''State'' taskline st of
        Inl e \<Rightarrow> Inl e
      | Inr st' \<Rightarrow>
     (case assign_if_in ''Actions'' taskline ac of
        Inl e \<Rightarrow> Inl e
      | Inr ac' \<Rightarrow> read_details rest (lrt', tp', st', ac')))))"

fun windows_tasks :: "host \<Rightarrow> string list \<Rightarrow> exn + task list" where
  \<comment> \<open>The loop of lines 45 to 82 over the lines of the listing.\<close>
  "windows_tasks run [] = Inr []"
| "windows_tasks run (line # rest) =
     (if startswith line ''TaskName'' then windows_tasks run rest
      else if strip line = [] then windows_tasks run rest
      else let parts = split_maxsplit1 line in
        if 1 \<le> length parts then
          (let name = strip (parts ! 0) in
           case run (command_taskpath name) of
             Raised e \<Rightarrow> Inl e
           | Completed stdout_taskpath stderr_taskpath \<Rightarrow>
               if stderr_taskpath \<noteq> [] then windows_tasks run rest
               else (case read_details (splitlines stdout_taskpath) (Null, Null, Null, Null) of
                       Inl e \<Rightarrow> Inl e
                     | Inr (lrt, tp, st, ac) \<Rightarrow>
                         (case windows_tasks run rest of
                            Inl e \<Rightarrow> Inl e
                          | Inr tasks \<Rightarrow>
                              Inr (\<lparr> task_name = name, trigger_time = Absent,
                                     command = Absent, last_run_time = lrt,
                                     task_path = tp, state = st, actions = ac \<rparr> # tasks))))
        else windows_tasks run rest)"

definition cron_task :: "string \<Rightarrow> task option" where
  \<comment> \<open>Lines 95 to 104: the record appended for one line of the crontab, if any.\<close>
  "cron_task line =
     (if strip line \<noteq> [] \<and> \<not> startswith line ''#'' then
        (let parts = split line in
         if 5 < length parts then
           Some \<lparr> task_name = join '' '' (drop 5 parts),
                  trigger_time = Str (join '' '' (take 5 parts)),
                  command = Str (join '' '' (drop 5 parts)),
                  last_run_time = Absent, task_path = Absent,
                  state = Absent, actions = Absent \<rparr>
         else None)
      else None)"

fun cron_tasks :: "string list \<Rightarrow> task list" where
  \<comment> \<open>The loop of lines 94 to 104.\<close>
  "cron_tasks [] = []"
| "cron_tasks (line # rest) =
     (case cron_task line of
        None \<Rightarrow> cron_tasks rest
      | Some task \<Rightarrow> task # cron_tasks rest)"

definition get_scheduled_tasks :: "string \<Rightarrow> host \<Rightarrow> collect_error + task list" where
  \<comment> \<open>\<open>Inl\<close> is the \<open>None\<close> of the source.\<close>
  "get_scheduled_tasks system run =
     (if system = ''Windows'' then
        (case run windows_command of
           Raised e \<Rightarrow> Inl (handler e)
         | Completed stdout stderr \<Rightarrow>
             if stderr \<noteq> [] then Inl (RetrieveError stderr)
             else (case windows_tasks run (splitlines stdout) of
                     Inl e \<Rightarrow> Inl (handler e)
                   | Inr tasks \<Rightarrow> Inr tasks))
      else if system = ''Linux'' then
        (case run ''crontab -l'' of
           Raised e \<Rightarrow> Inl (handler e)
         | Completed stdout stderr \<Rightarrow>
             if stderr \<noteq> [] then Inl (CronError stderr)
             else Inr (cron_tasks (splitlines stdout)))
      else Inl (Unsupported system))"

section \<open>The polling loop\<close>

text \<open>
  \<open>monitor_scheduled_tasks\<close> collects once, then loops for ever: sleep, collect, compare.
  The loop ends only by an interrupt. A run is described by the collections it made:
  the first one, then one for each cycle the loop went through, so a list of cycles is
  a run up to the point where it was interrupted or observed. The sleep is not modelled.
  Nothing in the loop body raises: the only call that could, \<open>next\<close> at line 143, always
  finds a record (lemma \<open>added_entry\<close>), so the handler of line 163 is not reached
  from the comparison.
\<close>

datatype cycle = Skipped | Compared change_set

definition poll_cycle :: "task list \<Rightarrow> collect_error + task list \<Rightarrow> cycle \<times> task list" where
  \<comment> \<open>One pass through the loop body (lines 130 to 159): what the cycle did, and
      \<open>previous_tasks\<close> afterwards.\<close>
  "poll_cycle previous_tasks collected =
     (case collected of
        Inl e \<Rightarrow> (Skipped, previous_tasks)
      | Inr current_tasks \<Rightarrow>
          (Compared (compare_tasks previous_tasks current_tasks), current_tasks))"

fun poll_loop :: "task list \<Rightarrow> (collect_error + task list) list \<Rightarrow> cycle list \<times> task list" where
  "poll_loop previous_tasks [] = ([], previous_tasks)"
| "poll_loop previous_tasks (collected # rest) =
     (case poll_cycle previous_tasks collected of
        (c, previous_tasks') \<Rightarrow>
          (case poll_loop previous_tasks' rest of
             (cs, final) \<Rightarrow> (c # cs, final)))"

datatype run = InitialFailure collect_error | Polling "cycle list" "task list"

definition monitor_on ::
  "collect_error + task list \<Rightarrow> (collect_error + task list) list \<Rightarrow> run"
where
  \<comment> \<open>Lines 122 to 159, given what each call of \<open>get_scheduled_tasks\<close> returned.\<close>
  "monitor_on initial polls =
     (case initial of
        Inl e \<Rightarrow> InitialFailure e
      | Inr previous_tasks \<Rightarrow>
          (case poll_loop previous_tasks polls of (cs, final) \<Rightarrow> Polling cs final))"

definition monitor_scheduled_tasks :: "string \<Rightarrow> host \<Rightarrow> host list \<Rightarrow> run" where
  \<comment> \<open>The host at the first collection, then at the collection of each cycle.\<close>
  "monitor_scheduled_tasks system run0 runs =
     monitor_on (get_scheduled_tasks system run0) (map (get_scheduled_tasks system) runs)"

section \<open>Sample hosts and tasks\<close>

text \<open>Concrete inputs on which the statements below are evaluated.\<close>

definition host_with_crontab :: "string \<Rightarrow> host" where
  \<comment> \<open>A host on which the command prints \<open>listing\<close> and nothing on its error stream.\<close>
  "host_with_crontab listing cmd = Completed listing []"

definition host_without_crontab :: host where
  \<comment> \<open>A host on which the command prints only an error, as \<open>crontab -l\<close> does for a
      user who has no crontab.\<close>
  "host_without_crontab cmd = Completed [] ''no crontab for root''"

definition morning_backup :: task where
  "morning_backup = \<lparr> task_name = ''backup.sh'', trigger_time = Str ''0 5 * * *'',
     command = Str ''backup.sh'', last_run_time = Absent, task_path = Absent,
     state = Absent, actions = Absent \<rparr>"

definition evening_backup :: task where
  "evening_backup = \<lparr> task_name = ''backup.sh'', trigger_time = Str ''0 17 * * *'',
     command = Str ''backup.sh'', last_run_time = Absent, task_path = Absent,
     state = Absent, actions = Absent \<rparr>"

definition morning_sync :: task where
  "morning_sync = \<lparr> task_name = ''sync.sh'', trigger_time = Str ''0 5 * * *'',
     command = Str ''sync.sh'', last_run_time = Absent, task_path = Absent,
     state = Absent, actions = Absent \<rparr>"

definition evening_sync :: task where
  "evening_sync = \<lparr> task_name = ''sync.sh'', trigger_time = Str ''0 17 * * *'',
     command = Str ''sync.sh'', last_run_time = Absent, task_path = Absent,
     state = Absent, actions = Absent \<rparr>"

definition crontab_two_schedules :: string where
  \<comment> \<open>Three entries, two of them running \<open>backup.sh\<close>.\<close>
  "crontab_two_schedules =
     ''0 5 * * * sync.sh'' @ [CHR 0x0A] @ ''0 5 * * * backup.sh'' @ [CHR 0x0A]
       @ ''0 17 * * * backup.sh'' @ [CHR 0x0A]"

definition defrag_ready :: task where
  "defrag_ready = \<lparr> task_name = ''Defrag'', trigger_time = Absent, command = Absent,
     last_run_time = Str ''01/01/2024'', task_path = Str [CHR 0x5C],
     state = Str ''Ready'', actions = Null \<rparr>"

definition defrag_running :: task where
  "defrag_running = \<lparr> task_name = ''Defrag'', trigger_time = Absent, command = Absent,
     last_run_time = Str ''02/01/2024'', task_path = Str [CHR 0x5C],
     state = Str ''Running'', actions = Null \<rparr>"

section \<open>Auxiliary facts\<close>

lemma next_task_Some:
  "next_task n ts = Some t \<Longrightarrow> t \<in> set ts \<and> task_name t = n"
  unfolding next_task_def by (induction ts) (auto split: if_splits)


lemma next_task_distinct:
  "distinct (map task_name ts) \<Longrightarrow> t \<in> set ts \<Longrightarrow> next_task (task_name t) ts = Some t"
  unfolding next_task_def by (induction ts) (auto simp: rev_image_eqI)

lemma next_task_append:
  "n \<notin> task_names pre \<Longrightarrow> next_task n (pre @ ts) = next_task n ts"
  unfolding next_task_def task_names_def by (induction pre) auto


lemma updated_tasks_iff:
  "(c, p) \<in> set (updated_tasks prev cur) \<longleftrightarrow>
     c \<in> set cur \<and> next_task (task_name c) prev = Some p \<and> key_differs c p"
  by (induction cur) (auto split: option.splits)


lemma poll_loop_Cons:
  "poll_loop prev (x # xs) =
     (fst (poll_cycle prev x) # fst (poll_loop (snd (poll_cycle prev x)) xs),
      snd (poll_loop (snd (poll_cycle prev x)) xs))"
  by (simp split: prod.splits)

lemma poll_loop_append:
  "poll_loop prev (xs @ ys) =
     (fst (poll_loop prev xs) @ fst (poll_loop (snd (poll_loop prev xs)) ys),
      snd (poll_loop (snd (poll_loop prev xs)) ys))"
  by (induction xs arbitrary: prev) (simp_all add: poll_loop_Cons del: poll_loop.simps(2))

lemma length_poll_loop: "length (fst (poll_loop prev xs)) = length xs"
  by (induction xs arbitrary: prev) (simp_all add: poll_loop_Cons del: poll_loop.simps(2))

lemma cron_task_command: "cron_task line = Some t \<Longrightarrow> command t = Str (task_name t)"
  by (auto simp: cron_task_def Let_def split: if_splits)

lemma cron_tasks_command: "t \<in> set (cron_tasks lines) \<Longrightarrow> command t = Str (task_name t)"
  by (induction lines) (auto split: option.splits dest: cron_task_command)

lemma linux_command:
  "get_scheduled_tasks ''Linux'' run = Inr tasks \<Longrightarrow> t \<in> set tasks \<Longrightarrow>
     command t = Str (task_name t)"
  by (auto simp: get_scheduled_tasks_def split: proc_result.splits if_splits
      dest: cron_tasks_command)

lemma cron_tasks_map_filter: "cron_tasks lines = List.map_filter cron_task lines"
  by (induction lines) (auto split: option.splits)

lemmas eval_strings =
  splitlines_def islinebreak_def strip_def isspace_def startswith_def split_def

lemmas eval_tasks =
  morning_backup_def evening_backup_def morning_sync_def evening_sync_def
  defrag_ready_def defrag_running_def

lemmas eval_compare =
  compare_tasks_def added_tasks_def removed_tasks_def task_names_def next_task_def
  key_differs_def

lemma collect_morning_backup:
  "get_scheduled_tasks ''Linux'' (host_with_crontab ''0 5 * * * backup.sh'')
     = Inr [morning_backup]"
  by (simp add: get_scheduled_tasks_def host_with_crontab_def cron_task_def
      eval_strings eval_tasks)

lemma collect_evening_backup:
  "get_scheduled_tasks ''Linux'' (host_with_crontab ''0 17 * * * backup.sh'')
     = Inr [evening_backup]"
  by (simp add: get_scheduled_tasks_def host_with_crontab_def cron_task_def
      eval_strings eval_tasks)

lemma collect_morning_sync:
  "get_scheduled_tasks ''Linux'' (host_with_crontab ''0 5 * * * sync.sh'')
     = Inr [morning_sync]"
  by (simp add: get_scheduled_tasks_def host_with_crontab_def cron_task_def
      eval_strings eval_tasks)

lemma collect_both_backups:
  "get_scheduled_tasks ''Linux''
     (host_with_crontab (''0 5 * * * backup.sh'' @ [CHR 0x0A] @ ''0 17 * * * backup.sh''
        @ [CHR 0x0A]))
     = Inr [morning_backup, evening_backup]"
  by (simp add: get_scheduled_tasks_def host_with_crontab_def cron_task_def
      eval_strings eval_tasks)

lemma collect_two_schedules:
  "get_scheduled_tasks ''Linux'' (host_with_crontab crontab_two_schedules)
     = Inr [morning_sync, morning_backup, evening_backup]"
  by (simp add: get_scheduled_tasks_def host_with_crontab_def cron_task_def
      crontab_two_schedules_def eval_strings eval_tasks)

lemma collect_backup_then_sync:
  "get_scheduled_tasks ''Linux''
     (host_with_crontab (''0 5 * * * backup.sh'' @ [CHR 0x0A] @ ''0 17 * * * sync.sh''))
     = Inr [morning_backup, evening_sync]"
  by (simp add: get_scheduled_tasks_def host_with_crontab_def cron_task_def
      eval_strings eval_tasks)

lemma collect_sync_twice:
  "get_scheduled_tasks ''Linux''
     (host_with_crontab (''0 5 * * * sync.sh'' @ [CHR 0x0A] @ ''0 17 * * * sync.sh''))
     = Inr [morning_sync, evening_sync]"
  by (simp add: get_scheduled_tasks_def host_with_crontab_def cron_task_def
      eval_strings eval_tasks)

text \<open>
  Where no two previous records have the same name, the updated entries are those of
  a record whose trigger time or command changed.
\<close>

lemma updated_unique_names:
  assumes "distinct (map task_name previous_tasks)"
    and "current_task \<in> set current_tasks"
    and "previous_task \<in> set previous_tasks"
    and "task_name previous_task = task_name current_task"
  shows "(current_task, previous_task)
           \<in> set (updated (compare_tasks previous_tasks current_tasks))
         \<longleftrightarrow> dict_get (trigger_time current_task) \<noteq> dict_get (trigger_time previous_task)
           \<or> dict_get (command current_task) \<noteq> dict_get (command previous_task)"
  using assms next_task_distinct [of previous_tasks previous_task]
  by (simp add: compare_tasks_def updated_tasks_iff key_differs_def)

text \<open>
  Comparing a snapshot with itself logs nothing where records with one name agree on
  trigger time and command.
\<close>

lemma compare_self_agreeing:
  assumes "\<And>c p. c \<in> set S \<Longrightarrow> p \<in> set S \<Longrightarrow> task_name p = task_name c
             \<Longrightarrow> \<not> key_differs c p"
  shows "compare_tasks S S = \<lparr> added = {}, removed = {}, updated = [] \<rparr>"
proof -
  have "updated_tasks S cur = []" if "set cur \<subseteq> set S" for cur
    using that
  proof (induction cur)
    case Nil
    then show ?case by simp
  next
    case (Cons c cur)
    then have c: "c \<in> set S" and rest: "updated_tasks S cur = []"
      by simp_all
    show ?case
    proof (cases "next_task (task_name c) S")
      case None
      with rest show ?thesis by simp
    next
      case (Some p)
      from next_task_Some [OF Some] c have "\<not> key_differs c p"
        by (simp add: assms)
      with Some rest show ?thesis by simp
    qed
  qed
  then show ?thesis
    by (simp add: compare_tasks_def added_tasks_def removed_tasks_def)
qed

lemma updated_follows_current:
  "map fst (updated_tasks prev cur) =
     filter (\<lambda>c. c \<in> fst ` set (updated_tasks prev cur)) cur"
proof -
  let ?P = "\<lambda>c. \<exists>p. next_task (task_name c) prev = Some p \<and> key_differs c p"
  have a: "map fst (updated_tasks prev cur) = filter ?P cur"
    by (induction cur) (auto split: option.splits)
  have b: "c \<in> fst ` set (updated_tasks prev cur) \<longleftrightarrow> ?P c" if "c \<in> set cur" for c
  proof -
    have "c \<in> fst ` set (updated_tasks prev cur)
            \<longleftrightarrow> (\<exists>p. (c, p) \<in> set (updated_tasks prev cur))"
      by force
    with that show ?thesis by (simp add: updated_tasks_iff)
  qed
  have "filter ?P cur = filter (\<lambda>c. c \<in> fst ` set (updated_tasks prev cur)) cur"
    by (rule filter_cong) (simp_all add: b)
  with a show ?thesis by simp
qed

lemma iterates_length:
  assumes "iterates a names" and "iterates b names"
  shows "length a = length b"
proof -
  from assms have d: "distinct a" "distinct b" and e: "set a = set b"
    by (simp_all add: iterates_def)
  from d have "card (set a) = length a" and "card (set b) = length b"
    by (simp_all add: distinct_card)
  with e show ?thesis by simp
qed

section \<open>The comparison\<close>

text \<open>
  Claim C1 says that an updated entry is logged for a name exactly when the trigger
  time or the command of its record changed from one snapshot to the next. The program
  breaks it on a crontab that runs one command on two schedules. Collected twice with
  nothing changed in between, the cycle compares the second \<open>backup.sh\<close> record with
  the first one and logs it as updated.
\<close>

theorem unchanged_crontab_logged_updated:
  "monitor_scheduled_tasks ''Linux'' (host_with_crontab crontab_two_schedules)
     [host_with_crontab crontab_two_schedules]
   = Polling [Compared \<lparr> added = {}, removed = {},
                updated = [(evening_backup, morning_backup)] \<rparr>]
       [morning_sync, morning_backup, evening_backup]"
proof -
  have "compare_tasks [morning_sync, morning_backup, evening_backup]
          [morning_sync, morning_backup, evening_backup]
        = \<lparr> added = {}, removed = {}, updated = [(evening_backup, morning_backup)] \<rparr>"
    by (simp add: eval_compare eval_tasks)
  then show ?thesis
    by (simp add: monitor_scheduled_tasks_def monitor_on_def poll_cycle_def
        collect_two_schedules)
qed



text \<open>
  Claim C4 says that comparing a snapshot with itself logs nothing. The program breaks
  it on the snapshot of a crontab that runs one command on two schedules: the two
  records have one name, and the second is logged as updated against the first.
\<close>

theorem unchanged_snapshot_logged_updated:
  "get_scheduled_tasks ''Linux''
     (host_with_crontab (''0 5 * * * backup.sh'' @ [CHR 0x0A] @ ''0 17 * * * backup.sh''
        @ [CHR 0x0A]))
     = Inr [morning_backup, evening_backup]
   \<and> updated (compare_tasks [morning_backup, evening_backup]
        [morning_backup, evening_backup]) = [(evening_backup, morning_backup)]"
proof (rule conjI)
  show "get_scheduled_tasks ''Linux''
     (host_with_crontab (''0 5 * * * backup.sh'' @ [CHR 0x0A] @ ''0 17 * * * backup.sh''
        @ [CHR 0x0A]))
     = Inr [morning_backup, evening_backup]"
    by (rule collect_both_backups)
next
  show "updated (compare_tasks [morning_backup, evening_backup]
        [morning_backup, evening_backup]) = [(evening_backup, morning_backup)]"
    by (simp add: eval_compare eval_tasks)
qed

text \<open>
  Claim C9, amended. The updated entries are logged in the order of the records of the
  current snapshot, the same in every run. The added and the removed entries are logged
  in the order in which a Python set is visited, which the program does not fix: two
  runs on the same snapshots log the same entries, each once, in orders that may differ.
\<close>

theorem log_order:
  assumes "iterates a1 (added_tasks previous_tasks current_tasks)"
    and "iterates a2 (added_tasks previous_tasks current_tasks)"
    and "iterates r1 (removed_tasks previous_tasks current_tasks)"
    and "iterates r2 (removed_tasks previous_tasks current_tasks)"
  shows "set (added_log a1 current_tasks) = set (added_log a2 current_tasks)
    \<and> length (added_log a1 current_tasks) = length (added_log a2 current_tasks)
    \<and> distinct (added_log a1 current_tasks)
    \<and> set (removed_log r1) = set (removed_log r2)
    \<and> length (removed_log r1) = length (removed_log r2)
    \<and> distinct (removed_log r1)
    \<and> drop (length a1 + length r1) (comparison_log a1 r1 previous_tasks current_tasks)
      = updated_log previous_tasks current_tasks
    \<and> drop (length a1 + length r1) (comparison_log a1 r1 previous_tasks current_tasks)
      = drop (length a2 + length r2) (comparison_log a2 r2 previous_tasks current_tasks)
    \<and> map fst (updated (compare_tasks previous_tasks current_tasks))
      = filter (\<lambda>c. c \<in> fst ` set (updated (compare_tasks previous_tasks current_tasks)))
          current_tasks"
proof -
  from assms have sa: "set a1 = set a2" and sr: "set r1 = set r2"
    by (simp_all add: iterates_def)
  from assms have la: "length a1 = length a2" and lr: "length r1 = length r2"
    by (auto dest: iterates_length)
  from assms have da: "distinct a1" and dr: "distinct r1"
    by (simp_all add: iterates_def)
  have upd: "drop (length a + length r) (comparison_log a r previous_tasks current_tasks)
        = updated_log previous_tasks current_tasks" for a r
    by (simp add: comparison_log_def added_log_def removed_log_def)
  show ?thesis
  proof (intro conjI)
    show "set (added_log a1 current_tasks) = set (added_log a2 current_tasks)"
      using sa by (simp add: added_log_def)
    show "length (added_log a1 current_tasks) = length (added_log a2 current_tasks)"
      using la by (simp add: added_log_def)
    show "distinct (added_log a1 current_tasks)"
      using da by (simp add: added_log_def distinct_map inj_on_def)
    show "set (removed_log r1) = set (removed_log r2)"
      using sr by (simp add: removed_log_def)
    show "length (removed_log r1) = length (removed_log r2)"
      using lr by (simp add: removed_log_def)
    show "distinct (removed_log r1)"
      using dr by (simp add: removed_log_def distinct_map inj_on_def)
    show "drop (length a1 + length r1) (comparison_log a1 r1 previous_tasks current_tasks)
        = updated_log previous_tasks current_tasks"
      by (rule upd)
    show "drop (length a1 + length r1) (comparison_log a1 r1 previous_tasks current_tasks)
        = drop (length a2 + length r2) (comparison_log a2 r2 previous_tasks current_tasks)"
      by (simp only: upd)
    show "map fst (updated (compare_tasks previous_tasks current_tasks))
        = filter (\<lambda>c. c \<in> fst ` set (updated (compare_tasks previous_tasks current_tasks)))
            current_tasks"
      using updated_follows_current [of previous_tasks current_tasks]
      by (simp add: compare_tasks_def)
  qed
qed

theorem log_order_witness:
  "iterates [''backup.sh'', ''sync.sh''] (added_tasks [] [morning_backup, morning_sync])
   \<and> iterates [''sync.sh'', ''backup.sh''] (added_tasks [] [morning_backup, morning_sync])
   \<and> iterates [] (removed_tasks [] [morning_backup, morning_sync])
   \<and> set (added_log [''backup.sh'', ''sync.sh''] [morning_backup, morning_sync])
     = set (added_log [''sync.sh'', ''backup.sh''] [morning_backup, morning_sync])
   \<and> length (added_log [''backup.sh'', ''sync.sh''] [morning_backup, morning_sync])
     = length (added_log [''sync.sh'', ''backup.sh''] [morning_backup, morning_sync])"
proof -
  have n: "added_tasks [] [morning_backup, morning_sync] = {''backup.sh'', ''sync.sh''}"
    by (simp add: added_tasks_def task_names_def eval_tasks)
  have a1: "iterates [''backup.sh'', ''sync.sh'']
              (added_tasks [] [morning_backup, morning_sync])"
    unfolding n by (simp add: iterates_def)
  have a2: "iterates [''sync.sh'', ''backup.sh'']
              (added_tasks [] [morning_backup, morning_sync])"
    unfolding n by (simp add: iterates_def insert_commute)
  have r: "iterates [] (removed_tasks [] [morning_backup, morning_sync])"
    by (simp add: iterates_def removed_tasks_def task_names_def)
  from log_order [OF a1 a2 r r] a1 a2 r show ?thesis
    by blast
qed

text \<open>
  As stated, with one order for every run, C9 fails: the two added names of this
  comparison may be visited in either order, and the two logs differ.
\<close>

theorem log_order_counterexample:
  "iterates [''backup.sh'', ''sync.sh''] (added_tasks [] [morning_backup, morning_sync])
   \<and> iterates [''sync.sh'', ''backup.sh''] (added_tasks [] [morning_backup, morning_sync])
   \<and> iterates [] (removed_tasks [] [morning_backup, morning_sync])
   \<and> comparison_log [''backup.sh'', ''sync.sh''] [] [] [morning_backup, morning_sync]
     = [LogAdded ''backup.sh'' (Some morning_backup), LogAdded ''sync.sh'' (Some morning_sync)]
   \<and> comparison_log [''sync.sh'', ''backup.sh''] [] [] [morning_backup, morning_sync]
     = [LogAdded ''sync.sh'' (Some morning_sync), LogAdded ''backup.sh'' (Some morning_backup)]
   \<and> comparison_log [''backup.sh'', ''sync.sh''] [] [] [morning_backup, morning_sync]
     \<noteq> comparison_log [''sync.sh'', ''backup.sh''] [] [] [morning_backup, morning_sync]"
proof -
  have n: "added_tasks [] [morning_backup, morning_sync] = {''backup.sh'', ''sync.sh''}"
    by (simp add: added_tasks_def task_names_def eval_tasks)
  have a1: "iterates [''backup.sh'', ''sync.sh'']
              (added_tasks [] [morning_backup, morning_sync])"
    unfolding n by (simp add: iterates_def)
  have a2: "iterates [''sync.sh'', ''backup.sh'']
              (added_tasks [] [morning_backup, morning_sync])"
    unfolding n by (simp add: iterates_def insert_commute)
  have r: "iterates [] (removed_tasks [] [morning_backup, morning_sync])"
    by (simp add: iterates_def removed_tasks_def task_names_def)
  have l1: "comparison_log [''backup.sh'', ''sync.sh''] [] [] [morning_backup, morning_sync]
     = [LogAdded ''backup.sh'' (Some morning_backup), LogAdded ''sync.sh'' (Some morning_sync)]"
    by (simp add: comparison_log_def added_log_def removed_log_def updated_log_def
        next_task_def eval_tasks)
  have l2: "comparison_log [''sync.sh'', ''backup.sh''] [] [] [morning_backup, morning_sync]
     = [LogAdded ''sync.sh'' (Some morning_sync), LogAdded ''backup.sh'' (Some morning_backup)]"
    by (simp add: comparison_log_def added_log_def removed_log_def updated_log_def
        next_task_def eval_tasks)
  have d: "comparison_log [''backup.sh'', ''sync.sh''] [] [] [morning_backup, morning_sync]
     \<noteq> comparison_log [''sync.sh'', ''backup.sh''] [] [] [morning_backup, morning_sync]"
    unfolding l1 l2 by simp
  from a1 a2 r l1 l2 d show ?thesis by blast
qed




section \<open>The loop\<close>

text \<open>
  Claim C3. A cycle whose collection fails leaves \<open>previous_tasks\<close> as it was and the
  loop goes on to the next cycle. So when the collections of a run give \<open>S1\<close>, then a
  failure, then \<open>S2\<close>, the comparison of the cycle that collected \<open>S2\<close> is the one of
  \<open>S1\<close> with \<open>S2\<close>.
\<close>

theorem failed_cycle_keeps_previous:
  "poll_cycle previous_tasks (Inl e) = (Skipped, previous_tasks)
   \<and> poll_loop previous_tasks (Inl e # rest) =
       (Skipped # fst (poll_loop previous_tasks rest), snd (poll_loop previous_tasks rest))
   \<and> monitor_on (Inr S1) [Inl e, Inr S2] =
       Polling [Skipped, Compared (compare_tasks S1 S2)] S2
   \<and> poll_loop previous_tasks [Inr S1, Inl e, Inr S2] =
       ([Compared (compare_tasks previous_tasks S1), Skipped,
         Compared (compare_tasks S1 S2)], S2)"
  by (simp add: poll_loop_Cons poll_cycle_def monitor_on_def del: poll_loop.simps(2))

theorem failed_cycle_keeps_previous_witness:
  "monitor_scheduled_tasks ''Linux'' (host_with_crontab ''0 5 * * * backup.sh'')
     [host_without_crontab, host_with_crontab ''0 17 * * * backup.sh'']
   = Polling [Skipped, Compared \<lparr> added = {}, removed = {},
                updated = [(evening_backup, morning_backup)] \<rparr>] [evening_backup]"
proof -
  have f: "get_scheduled_tasks ''Linux'' host_without_crontab
             = Inl (CronError ''no crontab for root'')"
    by (simp add: get_scheduled_tasks_def host_without_crontab_def)
  have c: "compare_tasks [morning_backup] [evening_backup]
             = \<lparr> added = {}, removed = {}, updated = [(evening_backup, morning_backup)] \<rparr>"
    by (simp add: eval_compare eval_tasks)
  from failed_cycle_keeps_previous [where ?S1.0 = "[morning_backup]"
      and ?S2.0 = "[evening_backup]" and e = "CronError ''no crontab for root''"]
  have "monitor_on (Inr [morning_backup])
          [Inl (CronError ''no crontab for root''), Inr [evening_backup]]
        = Polling [Skipped, Compared (compare_tasks [morning_backup] [evening_backup])]
            [evening_backup]"
    by blast
  with f c show ?thesis
    by (simp add: monitor_scheduled_tasks_def collect_morning_backup collect_evening_backup)
qed

text \<open>
  Claim C6. A cycle whose collection succeeds ends with \<open>previous_tasks\<close> set to the
  tasks it collected, whatever the comparison logged, also when it logged nothing; the
  next comparison is made against them.
\<close>

theorem successful_cycle_replaces_previous:
  "poll_cycle previous_tasks (Inr current_tasks) =
     (Compared (compare_tasks previous_tasks current_tasks), current_tasks)
   \<and> snd (poll_loop previous_tasks (polls @ [Inr current_tasks])) = current_tasks
   \<and> last (fst (poll_loop previous_tasks (polls @ [Inr current_tasks, Inr next_tasks])))
       = Compared (compare_tasks current_tasks next_tasks)"
  by (simp add: poll_loop_append poll_cycle_def)

theorem successful_cycle_replaces_previous_witness:
  "poll_cycle [defrag_ready] (Inr [defrag_running])
     = (Compared \<lparr> added = {}, removed = {}, updated = [] \<rparr>, [defrag_running])
   \<and> [defrag_running] \<noteq> [defrag_ready]"
proof -
  have c: "compare_tasks [defrag_ready] [defrag_running]
             = \<lparr> added = {}, removed = {}, updated = [] \<rparr>"
    by (simp add: eval_compare eval_tasks)
  have d: "[defrag_running] \<noteq> [defrag_ready]"
    by (simp add: eval_tasks)
  from successful_cycle_replaces_previous [where previous_tasks = "[defrag_ready]"
      and current_tasks = "[defrag_running]" and polls = "[]" and next_tasks = "[]"]
  have "poll_cycle [defrag_ready] (Inr [defrag_running])
          = (Compared (compare_tasks [defrag_ready] [defrag_running]), [defrag_running])"
    by blast
  with c d show ?thesis by simp
qed

text \<open>
  Claim C5. When the first collection fails the run ends there, with no cycle of the
  loop and no comparison. A system that is neither Windows nor Linux makes the first
  collection fail. A run that has cycles started from a collected snapshot.
\<close>

theorem initial_failure_ends_run:
  "(get_scheduled_tasks system run0 = Inl e \<longrightarrow>
      monitor_scheduled_tasks system run0 runs = InitialFailure e)
   \<and> (system \<noteq> ''Windows'' \<and> system \<noteq> ''Linux'' \<longrightarrow>
      monitor_scheduled_tasks system run0 runs = InitialFailure (Unsupported system))
   \<and> (monitor_scheduled_tasks system run0 runs = Polling cycles final \<longrightarrow>
      (\<exists>S. get_scheduled_tasks system run0 = Inr S) \<and> length cycles = length runs)"
proof (intro conjI impI)
  assume "get_scheduled_tasks system run0 = Inl e"
  then show "monitor_scheduled_tasks system run0 runs = InitialFailure e"
    by (simp add: monitor_scheduled_tasks_def monitor_on_def)
next
  assume "system \<noteq> ''Windows'' \<and> system \<noteq> ''Linux''"
  then show "monitor_scheduled_tasks system run0 runs = InitialFailure (Unsupported system)"
    by (simp add: monitor_scheduled_tasks_def monitor_on_def get_scheduled_tasks_def)
next
  assume p: "monitor_scheduled_tasks system run0 runs = Polling cycles final"
  then show "\<exists>S. get_scheduled_tasks system run0 = Inr S"
    by (cases "get_scheduled_tasks system run0")
       (simp_all add: monitor_scheduled_tasks_def monitor_on_def)
next
  assume p: "monitor_scheduled_tasks system run0 runs = Polling cycles final"
  then obtain S where S: "get_scheduled_tasks system run0 = Inr S"
    by (cases "get_scheduled_tasks system run0")
       (simp_all add: monitor_scheduled_tasks_def monitor_on_def)
  with p have "cycles = fst (poll_loop S (map (get_scheduled_tasks system) runs))"
    by (simp add: monitor_scheduled_tasks_def monitor_on_def split: prod.splits)
  then show "length cycles = length runs"
    by (simp add: length_poll_loop)
qed

theorem initial_failure_ends_run_witness:
  "monitor_scheduled_tasks ''Darwin'' (host_with_crontab ''0 5 * * * backup.sh'')
     [host_with_crontab ''0 17 * * * backup.sh''] = InitialFailure (Unsupported ''Darwin'')
   \<and> monitor_scheduled_tasks ''Linux'' host_without_crontab
     [host_with_crontab ''0 17 * * * backup.sh'']
     = InitialFailure (CronError ''no crontab for root'')
   \<and> monitor_scheduled_tasks ''Linux'' (host_with_crontab ''0 5 * * * backup.sh'') []
     = Polling [] [morning_backup]"
proof -
  have f: "get_scheduled_tasks ''Linux'' host_without_crontab
             = Inl (CronError ''no crontab for root'')"
    by (simp add: get_scheduled_tasks_def host_without_crontab_def)
  have d: "''Darwin'' \<noteq> ''Windows'' \<and> ''Darwin'' \<noteq> ''Linux''"
    by simp
  have p: "monitor_scheduled_tasks ''Linux'' (host_with_crontab ''0 5 * * * backup.sh'') []
             = Polling [] [morning_backup]"
    by (simp add: monitor_scheduled_tasks_def monitor_on_def collect_morning_backup)
  from initial_failure_ends_run [where system = "''Darwin''"
      and ?run0.0 = "host_with_crontab ''0 5 * * * backup.sh''"
      and runs = "[host_with_crontab ''0 17 * * * backup.sh'']"] d
  have 1: "monitor_scheduled_tasks ''Darwin'' (host_with_crontab ''0 5 * * * backup.sh'')
     [host_with_crontab ''0 17 * * * backup.sh''] = InitialFailure (Unsupported ''Darwin'')"
    by blast
  from initial_failure_ends_run [where system = "''Linux''"
      and ?run0.0 = host_without_crontab
      and runs = "[host_with_crontab ''0 17 * * * backup.sh'']"
      and e = "CronError ''no crontab for root''"] f
  have 2: "monitor_scheduled_tasks ''Linux'' host_without_crontab
     [host_with_crontab ''0 17 * * * backup.sh'']
     = InitialFailure (CronError ''no crontab for root'')"
    by blast
  from 1 2 p show ?thesis by blast
qed

section \<open>The collection on Linux\<close>

text \<open>
  Claim C8, amended. On Linux a collection fails only when running \<open>crontab -l\<close> raises
  or writes to its error stream. Otherwise it returns a snapshot: a line that is blank,
  starts with \<open>#\<close> or has at most five fields is left out without any failure, and
  every other line gives one record.
\<close>

theorem cron_collection_result:
  "(get_scheduled_tasks ''Linux'' run = Inr tasks \<longleftrightarrow>
      (\<exists>out. run ''crontab -l'' = Completed out [] \<and> tasks = cron_tasks (splitlines out)))
   \<and> (get_scheduled_tasks ''Linux'' run = Inl e \<longleftrightarrow>
      (\<exists>x. run ''crontab -l'' = Raised x \<and> e = handler x)
      \<or> (\<exists>out err. run ''crontab -l'' = Completed out err \<and> err \<noteq> [] \<and> e = CronError err))
   \<and> cron_tasks lines = List.map_filter cron_task lines
   \<and> (cron_task line = None \<longleftrightarrow>
      strip line = [] \<or> startswith line ''#'' \<or> length (split line) \<le> 5)"
proof (intro conjI)
  show "get_scheduled_tasks ''Linux'' run = Inr tasks \<longleftrightarrow>
      (\<exists>out. run ''crontab -l'' = Completed out [] \<and> tasks = cron_tasks (splitlines out))"
    by (auto simp: get_scheduled_tasks_def split: proc_result.splits)
next
  show "get_scheduled_tasks ''Linux'' run = Inl e \<longleftrightarrow>
      (\<exists>x. run ''crontab -l'' = Raised x \<and> e = handler x)
      \<or> (\<exists>out err. run ''crontab -l'' = Completed out err \<and> err \<noteq> [] \<and> e = CronError err)"
    by (auto simp: get_scheduled_tasks_def split: proc_result.splits)
next
  show "cron_tasks lines = List.map_filter cron_task lines"
    by (rule cron_tasks_map_filter)
next
  show "cron_task line = None \<longleftrightarrow>
      strip line = [] \<or> startswith line ''#'' \<or> length (split line) \<le> 5"
    by (auto simp: cron_task_def Let_def)
qed

theorem cron_collection_result_witness:
  "get_scheduled_tasks ''Linux''
     (host_with_crontab (''MAILTO=root'' @ [CHR 0x0A] @ ''0 5 * * * backup.sh''))
     = Inr [morning_backup]
   \<and> cron_task ''MAILTO=root'' = None
   \<and> get_scheduled_tasks ''Linux'' host_without_crontab
     = Inl (CronError ''no crontab for root'')"
proof -
  let ?listing = "''MAILTO=root'' @ [CHR 0x0A] @ ''0 5 * * * backup.sh''"
  note r = cron_collection_result [where run = "host_with_crontab ?listing"
      and tasks = "[morning_backup]" and line = "''MAILTO=root''"]
  have "host_with_crontab ?listing ''crontab -l'' = Completed ?listing []
        \<and> [morning_backup] = cron_tasks (splitlines ?listing)"
    by (simp add: host_with_crontab_def cron_task_def eval_strings eval_tasks)
  then have "\<exists>out. host_with_crontab ?listing ''crontab -l'' = Completed out []
        \<and> [morning_backup] = cron_tasks (splitlines out)"
    by (rule exI)
  with r have 1: "get_scheduled_tasks ''Linux'' (host_with_crontab ?listing)
        = Inr [morning_backup]"
    by blast
  have "length (split ''MAILTO=root'') \<le> 5"
    by (simp add: eval_strings)
  with r have 2: "cron_task ''MAILTO=root'' = None"
    by blast
  have "host_without_crontab ''crontab -l'' = Completed [] ''no crontab for root''
        \<and> ''no crontab for root'' \<noteq> []
        \<and> CronError ''no crontab for root'' = CronError ''no crontab for root''"
    by (simp add: host_without_crontab_def)
  with cron_collection_result [where run = host_without_crontab
      and e = "CronError ''no crontab for root''"]
  have 3: "get_scheduled_tasks ''Linux'' host_without_crontab
        = Inl (CronError ''no crontab for root'')"
    by blast
  from 1 2 3 show ?thesis by blast
qed

text \<open>
  As stated, C8 fails: a line the collector does not take apart, here a schedule
  written with \<open>@daily\<close>, is dropped and the collection returns an empty snapshot
  instead of a failure.
\<close>

theorem skipped_line_counterexample:
  "split ''@daily backup.sh'' = [''@daily'', ''backup.sh'']
   \<and> get_scheduled_tasks ''Linux'' (host_with_crontab ''@daily backup.sh'') = Inr []"
  by (simp add: get_scheduled_tasks_def host_with_crontab_def cron_task_def eval_strings)

text \<open>
  Claim C10, amended. Every record collected on Linux has the command as its name. So between
  two snapshots collected on Linux an updated entry has equal commands and different
  trigger times; two records with different commands are never logged as an update of
  one by the other; a current record whose command no previous record has is logged as
  added, and a previous record whose command no current record has is logged as removed.
\<close>

theorem cron_name_is_command:
  assumes "get_scheduled_tasks ''Linux'' run1 = Inr previous_tasks"
    and "get_scheduled_tasks ''Linux'' run2 = Inr current_tasks"
  shows "(t \<in> set previous_tasks \<union> set current_tasks \<longrightarrow> command t = Str (task_name t))
   \<and> ((c, p) \<in> set (updated (compare_tasks previous_tasks current_tasks)) \<longrightarrow>
        command c = command p \<and> dict_get (trigger_time c) \<noteq> dict_get (trigger_time p))
   \<and> (c \<in> set current_tasks \<and> p \<in> set previous_tasks \<and> command c \<noteq> command p \<longrightarrow>
        (c, p) \<notin> set (updated (compare_tasks previous_tasks current_tasks)))
   \<and> (c \<in> set current_tasks \<and> command c \<notin> command ` set previous_tasks \<longrightarrow>
        task_name c \<in> fst ` added (compare_tasks previous_tasks current_tasks))
   \<and> (p \<in> set previous_tasks \<and> command p \<notin> command ` set current_tasks \<longrightarrow>
        task_name p \<in> removed (compare_tasks previous_tasks current_tasks))"
proof -
  have cmd: "command u = Str (task_name u)"
    if "u \<in> set previous_tasks \<union> set current_tasks" for u
    using that assms linux_command by blast
  have upd: "command c = command p \<and> dict_get (trigger_time c) \<noteq> dict_get (trigger_time p)"
    if "(c, p) \<in> set (updated (compare_tasks previous_tasks current_tasks))"
  proof -
    from that have c: "c \<in> set current_tasks"
      and n: "next_task (task_name c) previous_tasks = Some p" and k: "key_differs c p"
      by (simp_all add: compare_tasks_def updated_tasks_iff)
    from next_task_Some [OF n] have p: "p \<in> set previous_tasks" "task_name p = task_name c"
      by simp_all
    with c cmd [of c] cmd [of p] have "command c = command p" by simp
    with k show ?thesis by (simp add: key_differs_def)
  qed
  have names: "task_name u = task_name v \<longleftrightarrow> command u = command v"
    if "u \<in> set previous_tasks \<union> set current_tasks"
      "v \<in> set previous_tasks \<union> set current_tasks" for u v
    using that cmd [of u] cmd [of v] by auto
  have add: "task_name c \<in> fst ` added (compare_tasks previous_tasks current_tasks)"
    if "c \<in> set current_tasks" "command c \<notin> command ` set previous_tasks"
  proof -
    from that names have "task_name c \<in> task_names current_tasks - task_names previous_tasks"
      by (auto simp: task_names_def)
    then show ?thesis
      by (simp add: compare_tasks_def added_tasks_def image_image)
  qed
  have rem: "task_name p \<in> removed (compare_tasks previous_tasks current_tasks)"
    if "p \<in> set previous_tasks" "command p \<notin> command ` set current_tasks"
  proof -
    from that names have "task_name p \<in> task_names previous_tasks - task_names current_tasks"
      by (auto simp: task_names_def)
    then show ?thesis
      by (simp add: compare_tasks_def removed_tasks_def)
  qed
  from cmd upd add rem show ?thesis by blast
qed

theorem cron_name_is_command_witness:
  "get_scheduled_tasks ''Linux'' (host_with_crontab ''0 5 * * * backup.sh'')
     = Inr [morning_backup]
   \<and> get_scheduled_tasks ''Linux'' (host_with_crontab ''0 17 * * * backup.sh'')
     = Inr [evening_backup]
   \<and> get_scheduled_tasks ''Linux'' (host_with_crontab ''0 5 * * * sync.sh'')
     = Inr [morning_sync]
   \<and> command morning_backup = Str (task_name morning_backup)
   \<and> command evening_backup = command morning_backup
   \<and> dict_get (trigger_time evening_backup) \<noteq> dict_get (trigger_time morning_backup)
   \<and> (morning_sync, morning_backup)
       \<notin> set (updated (compare_tasks [morning_backup] [morning_sync]))
   \<and> ''sync.sh'' \<in> fst ` added (compare_tasks [morning_backup] [morning_sync])
   \<and> ''backup.sh'' \<in> removed (compare_tasks [morning_backup] [morning_sync])"
proof -
  have u: "(evening_backup, morning_backup)
             \<in> set (updated (compare_tasks [morning_backup] [evening_backup]))"
    by (simp add: eval_compare eval_tasks)
  from cron_name_is_command [OF collect_morning_backup collect_evening_backup,
      where c = evening_backup and p = morning_backup and t = morning_backup] u
  have 1: "command morning_backup = Str (task_name morning_backup)
        \<and> command evening_backup = command morning_backup
        \<and> dict_get (trigger_time evening_backup) \<noteq> dict_get (trigger_time morning_backup)"
    by simp
  have d: "morning_sync \<in> set [morning_sync] \<and> morning_backup \<in> set [morning_backup]
        \<and> command morning_sync \<noteq> command morning_backup
        \<and> command morning_sync \<notin> command ` set [morning_backup]
        \<and> command morning_backup \<notin> command ` set [morning_sync]
        \<and> task_name morning_sync = ''sync.sh'' \<and> task_name morning_backup = ''backup.sh''"
    by (simp add: eval_tasks)
  from cron_name_is_command [OF collect_morning_backup collect_morning_sync,
      where c = morning_sync and p = morning_backup] d
  have 2: "(morning_sync, morning_backup)
       \<notin> set (updated (compare_tasks [morning_backup] [morning_sync]))
     \<and> task_name morning_sync \<in> fst ` added (compare_tasks [morning_backup] [morning_sync])
     \<and> task_name morning_backup \<in> removed (compare_tasks [morning_backup] [morning_sync])"
    by blast
  from 1 2 d collect_morning_backup collect_evening_backup collect_morning_sync
  show ?thesis by simp
qed

text \<open>
  As stated, with a changed command always logged as one removed and one added entry,
  C10 fails: when the new command is already the command of another entry, nothing is
  added, and the changed entry is logged as an update of that other entry.
\<close>

theorem changed_command_counterexample:
  "get_scheduled_tasks ''Linux''
     (host_with_crontab (''0 5 * * * backup.sh'' @ [CHR 0x0A] @ ''0 17 * * * sync.sh''))
     = Inr [morning_backup, evening_sync]
   \<and> get_scheduled_tasks ''Linux''
     (host_with_crontab (''0 5 * * * sync.sh'' @ [CHR 0x0A] @ ''0 17 * * * sync.sh''))
     = Inr [morning_sync, evening_sync]
   \<and> compare_tasks [morning_backup, evening_sync] [morning_sync, evening_sync]
     = \<lparr> added = {}, removed = {''backup.sh''}, updated = [(morning_sync, evening_sync)] \<rparr>"
proof (intro conjI)
  show "get_scheduled_tasks ''Linux''
     (host_with_crontab (''0 5 * * * backup.sh'' @ [CHR 0x0A] @ ''0 17 * * * sync.sh''))
     = Inr [morning_backup, evening_sync]"
    by (rule collect_backup_then_sync)
next
  show "get_scheduled_tasks ''Linux''
     (host_with_crontab (''0 5 * * * sync.sh'' @ [CHR 0x0A] @ ''0 17 * * * sync.sh''))
     = Inr [morning_sync, evening_sync]"
    by (rule collect_sync_twice)
next
  show "compare_tasks [morning_backup, evening_sync] [morning_sync, evening_sync]
     = \<lparr> added = {}, removed = {''backup.sh''}, updated = [(morning_sync, evening_sync)] \<rparr>"
    by (simp add: eval_compare eval_tasks insert_Diff_if)
qed

end
